theory Spec2Isabelle
  imports Main
begin

section \<open>Data model\<close>

text \<open>
  A shallow embedding of \<^verbatim>\<open>main.go\<close> of the task tracker. A Go \<^verbatim>\<open>time.Time\<close> is
  an integer (a point on a linear time line), a Go \<^verbatim>\<open>int\<close> an unbounded integer, a
  Go \<^verbatim>\<open>string\<close> a list of bytes.
\<close>

type_synonym time = int

record Task =
  ID :: int
  Description :: string
  Status :: string
  CreatedAt :: time
  UpdatedAt :: time

text \<open>
  Go errors are values. The constructors keep apart where an error comes from:
  \<^verbatim>\<open>os\<close> reporting a missing file, \<^verbatim>\<open>os\<close> reporting anything else,
  \<^verbatim>\<open>encoding/json\<close>, and \<^verbatim>\<open>errors.New\<close> or \<^verbatim>\<open>fmt.Errorf\<close>. Each carries its
  message, which \<^verbatim>\<open>err.Error()\<close> returns.
\<close>

datatype error =
    NotExist string
  | PathError string
  | JsonError string
  | ErrorString string

fun Error :: "error \<Rightarrow> string" where
  "Error (NotExist m) = m"
| "Error (PathError m) = m"
| "Error (JsonError m) = m"
| "Error (ErrorString m) = m"

fun IsNotExist :: "error \<Rightarrow> bool" where
  "IsNotExist (NotExist m) = True"
| "IsNotExist (PathError m) = False"
| "IsNotExist (JsonError m) = False"
| "IsNotExist (ErrorString m) = False"

text \<open>
  A function of the program either returns or panics; an unrecovered panic ends the
  process.
\<close>

datatype 'a outcome = Return 'a | Panic string

section \<open>The environment\<close>

text \<open>
  \<^verbatim>\<open>json.Marshal\<close> and \<^verbatim>\<open>json.Unmarshal\<close> on a \<^verbatim>\<open>[]Task\<close> belong to the Go
  library; they are a parameter of the model. The type \<open>'d\<close> is what a file holds. A
  \<^verbatim>\<open>nil\<close> slice and an empty slice are both the empty list.
\<close>

record 'd codec =
  marshal :: "Task list \<Rightarrow> error + 'd"
  unmarshal :: "'d \<Rightarrow> error + Task list"

text \<open>Every call of \<^verbatim>\<open>os.ReadFile\<close> and \<^verbatim>\<open>os.WriteFile\<close> is recorded, failed or not.\<close>

datatype 'd fs_event = ReadCall string | WriteCall string 'd

text \<open>
  The world outside the process: the files by name, whether the operating system refuses
  reads or writes (with the message of the refusal), the record of file system calls, the
  clock as the sequence of its readings with the number of readings taken so far, and the
  two output streams.
\<close>

record 'd world =
  files :: "string \<rightharpoonup> 'd"
  read_fault :: "string option"
  write_fault :: "string option"
  trace :: "'d fs_event list"
  now :: "nat \<Rightarrow> time"
  ticks :: nat
  stdout :: string
  stderr :: string

definition os_ReadFile :: "string \<Rightarrow> 'd world \<Rightarrow> (error + 'd) \<times> 'd world" where
  "os_ReadFile name w =
     ((case read_fault w of
         Some m \<Rightarrow> Inl (PathError m)
       | None \<Rightarrow>
           (case files w name of
              None \<Rightarrow> Inl (NotExist (''open '' @ name @ '': no such file or directory''))
            | Some d \<Rightarrow> Inr d)),
      w\<lparr>trace := trace w @ [ReadCall name]\<rparr>)"

definition os_WriteFile :: "string \<Rightarrow> 'd \<Rightarrow> 'd world \<Rightarrow> error option \<times> 'd world" where
  "os_WriteFile name d w =
     (case write_fault w of
        Some m \<Rightarrow> (Some (PathError m), w\<lparr>trace := trace w @ [WriteCall name d]\<rparr>)
      | None \<Rightarrow>
          (None, w\<lparr>files := (files w)(name \<mapsto> d), trace := trace w @ [WriteCall name d]\<rparr>))"

text \<open>\<^verbatim>\<open>time.Now().UTC()\<close>: the next reading of the clock.\<close>

definition time_Now :: "'d world \<Rightarrow> time \<times> 'd world" where
  "time_Now w = (now w (ticks w), w\<lparr>ticks := Suc (ticks w)\<rparr>)"

definition Println :: "string \<Rightarrow> 'd world \<Rightarrow> 'd world" where
  "Println s w = w\<lparr>stdout := stdout w @ s @ [CHR 0x0A]\<rparr>"

definition Eprint :: "string \<Rightarrow> 'd world \<Rightarrow> 'd world" where
  "Eprint s w = w\<lparr>stderr := stderr w @ s\<rparr>"

section \<open>The storage repository\<close>

record JsonTaskRepository =
  filename :: string
  tasks :: "Task list"

text \<open>
  \<^verbatim>\<open>load\<close>. When \<^verbatim>\<open>os.ReadFile\<close> fails for another reason than a missing file, the
  code passes the \<^verbatim>\<open>nil\<close> bytes to \<^verbatim>\<open>json.Unmarshal\<close>, which rejects an empty input.
  The repository is returned only when \<^verbatim>\<open>load\<close> succeeds: its one caller drops it
  otherwise.
\<close>

definition load ::
  "'d codec \<Rightarrow> JsonTaskRepository \<Rightarrow> 'd world \<Rightarrow> (error + JsonTaskRepository) \<times> 'd world" where
  "load c r w =
     (case os_ReadFile (filename r) w of
        (Inl err, w1) \<Rightarrow>
          if IsNotExist err then
            (case marshal c [] of
               Inl e \<Rightarrow> (Inl e, w1)
             | Inr d \<Rightarrow>
                 (case os_WriteFile (filename r) d w1 of
                    (Some e, w2) \<Rightarrow> (Inl e, w2)
                  | (None, w2) \<Rightarrow> (Inr r, w2)))
          else (Inl (JsonError ''unexpected end of JSON input''), w1)
      | (Inr d, w1) \<Rightarrow>
          (case unmarshal c d of
             Inl e \<Rightarrow> (Inl e, w1)
           | Inr ts \<Rightarrow> (Inr (r\<lparr>tasks := ts\<rparr>), w1)))"

definition newJsonTaskRepository ::
  "'d codec \<Rightarrow> string \<Rightarrow> 'd world \<Rightarrow> (error + JsonTaskRepository) \<times> 'd world" where
  "newJsonTaskRepository c name w = load c \<lparr>filename = name, tasks = []\<rparr> w"

definition save ::
  "'d codec \<Rightarrow> JsonTaskRepository \<Rightarrow> 'd world \<Rightarrow> error option \<times> 'd world" where
  "save c r w =
     (case marshal c (tasks r) of
        Inl e \<Rightarrow> (Some (ErrorString (''failed to marshal tasks: '' @ Error e)), w)
      | Inr d \<Rightarrow> os_WriteFile (filename r) d w)"

text \<open>
  \<^verbatim>\<open>List\<close>, here \<open>ListTasks\<close> (\<open>List\<close> is the theory of lists): the loop appends each
  task of the wanted status to the result.
\<close>

definition ListTasks :: "JsonTaskRepository \<Rightarrow> string \<Rightarrow> Task list \<times> error option" where
  "ListTasks r status =
     (if status \<noteq> [] then
        (fold (\<lambda>t filteredTasks. if Status t = status then filteredTasks @ [t] else filteredTasks)
           (tasks r) [], None)
      else (tasks r, None))"

text \<open>
  \<^verbatim>\<open>Add\<close> reads the clock twice, once for each time stamp, appends the task and
  returns it together with what \<^verbatim>\<open>save\<close> returns.
\<close>

definition Add ::
  "'d codec \<Rightarrow> string \<Rightarrow> JsonTaskRepository \<Rightarrow> 'd world \<Rightarrow>
     Task \<times> error option \<times> JsonTaskRepository \<times> 'd world" where
  "Add c description r w =
     (let (created, w1) = time_Now w;
          (updated, w2) = time_Now w1;
          task = \<lparr>ID = int (length (tasks r)) + 1, Description = description,
                  Status = ''todo'', CreatedAt = created, UpdatedAt = updated\<rparr>;
          r' = r\<lparr>tasks := tasks r @ [task]\<rparr>;
          (err, w3) = save c r' w2
      in (task, err, r', w3))"

text \<open>
  The loop shared by \<^verbatim>\<open>Update\<close>, \<^verbatim>\<open>MarkInProgress\<close> and \<^verbatim>\<open>MarkDone\<close>:
  \<^verbatim>\<open>for i, t := range r.tasks { if t.ID == id { r.tasks[i].F = v; r.tasks[i].UpdatedAt = time.Now().UTC() } }\<close>.
  The length \<open>n\<close> of the range is fixed when the loop starts; \<open>set_field\<close> is the
  assignment to the field \<^verbatim>\<open>F\<close>. There is no \<^verbatim>\<open>break\<close>.
\<close>

function range_set ::
  "(Task \<Rightarrow> Task) \<Rightarrow> int \<Rightarrow> nat \<Rightarrow> nat \<Rightarrow> Task list \<Rightarrow> 'd world \<Rightarrow> Task list \<times> 'd world" where
  "range_set set_field tid n i ts w =
     (if i < n then
        (if ID (ts ! i) = tid then
           (case time_Now w of
              (t, w') \<Rightarrow>
                range_set set_field tid n (Suc i) (ts[i := (set_field (ts ! i))\<lparr>UpdatedAt := t\<rparr>]) w')
         else range_set set_field tid n (Suc i) ts w)
      else (ts, w))"
  by pat_completeness auto
termination
  by (relation "measure (\<lambda>(set_field, tid, n, i, ts, w). n - i)") auto

declare range_set.simps [simp del]

definition Update ::
  "'d codec \<Rightarrow> int \<Rightarrow> string \<Rightarrow> JsonTaskRepository \<Rightarrow> 'd world \<Rightarrow>
     error option \<times> JsonTaskRepository \<times> 'd world" where
  "Update c tid description r w =
     (case range_set (\<lambda>t. t\<lparr>Description := description\<rparr>) tid (length (tasks r)) 0 (tasks r) w of
        (ts, w1) \<Rightarrow>
          (case save c (r\<lparr>tasks := ts\<rparr>) w1 of (err, w2) \<Rightarrow> (err, r\<lparr>tasks := ts\<rparr>, w2)))"

definition MarkInProgress ::
  "'d codec \<Rightarrow> int \<Rightarrow> JsonTaskRepository \<Rightarrow> 'd world \<Rightarrow>
     error option \<times> JsonTaskRepository \<times> 'd world" where
  "MarkInProgress c tid r w =
     (case range_set (\<lambda>t. t\<lparr>Status := ''in-progress''\<rparr>) tid (length (tasks r)) 0 (tasks r) w of
        (ts, w1) \<Rightarrow>
          (case save c (r\<lparr>tasks := ts\<rparr>) w1 of (err, w2) \<Rightarrow> (err, r\<lparr>tasks := ts\<rparr>, w2)))"

definition MarkDone ::
  "'d codec \<Rightarrow> int \<Rightarrow> JsonTaskRepository \<Rightarrow> 'd world \<Rightarrow>
     error option \<times> JsonTaskRepository \<times> 'd world" where
  "MarkDone c tid r w =
     (case range_set (\<lambda>t. t\<lparr>Status := ''done''\<rparr>) tid (length (tasks r)) 0 (tasks r) w of
        (ts, w1) \<Rightarrow>
          (case save c (r\<lparr>tasks := ts\<rparr>) w1 of (err, w2) \<Rightarrow> (err, r\<lparr>tasks := ts\<rparr>, w2)))"

text \<open>Decimal digits, for messages and output.\<close>

fun nat_digits :: "nat \<Rightarrow> string" where
  "nat_digits n =
     (if n < 10 then [''0123456789'' ! n]
      else nat_digits (n div 10) @ [''0123456789'' ! (n mod 10)])"

declare nat_digits.simps [simp del]

text \<open>\<^verbatim>\<open>strconv.Itoa\<close>, the format \<^verbatim>\<open>%d\<close>, and how \<^verbatim>\<open>fmt.Println\<close> shows an int.\<close>

definition Itoa :: "int \<Rightarrow> string" where
  "Itoa i = (if i < 0 then ''-'' @ nat_digits (nat (- i)) else nat_digits (nat i))"

text \<open>
  \<^verbatim>\<open>Delete\<close>:
  \<^verbatim>\<open>for i, t := range r.tasks { if t.ID == id { r.tasks = append(r.tasks[:i], r.tasks[i+1:]...) } }\<close>.
  The range is over the slice as it is when the loop starts: its \<open>n\<close> cells are visited
  whatever happens to \<^verbatim>\<open>r.tasks\<close> meanwhile, and each \<^verbatim>\<open>t\<close> is read from the backing
  array when its turn comes. \<^verbatim>\<open>append\<close> has room in that same array, so it moves the
  cells after \<open>i\<close> one place down in it and leaves the cell that was last as it is;
  \<^verbatim>\<open>r.tasks\<close> becomes one shorter. \<open>arr\<close> is the backing array (its first \<open>n\<close> cells),
  \<open>len\<close> the current length of \<^verbatim>\<open>r.tasks\<close>. The slice expression \<^verbatim>\<open>r.tasks[i+1:]\<close>
  panics when \<open>i + 1\<close> is beyond that length.
\<close>

function Delete_loop :: "int \<Rightarrow> nat \<Rightarrow> nat \<Rightarrow> Task list \<Rightarrow> nat \<Rightarrow> Task list outcome" where
  "Delete_loop tid n i arr len =
     (if i < n then
        (if ID (arr ! i) = tid then
           (if i + 1 \<le> len then
              Delete_loop tid n (Suc i)
                (take i arr @ drop (i + 1) (take len arr) @ drop (len - 1) arr) (len - 1)
            else Panic (''runtime error: slice bounds out of range ['' @ Itoa (int (i + 1)) @
                        '':'' @ Itoa (int len) @ '']''))
         else Delete_loop tid n (Suc i) arr len)
      else Return (take len arr))"
  by pat_completeness auto
termination
  by (relation "measure (\<lambda>(tid, n, i, arr, len). n - i)") auto

declare Delete_loop.simps [simp del]

definition Delete ::
  "'d codec \<Rightarrow> int \<Rightarrow> JsonTaskRepository \<Rightarrow> 'd world \<Rightarrow>
     (error option \<times> JsonTaskRepository \<times> 'd world) outcome" where
  "Delete c tid r w =
     (case Delete_loop tid (length (tasks r)) 0 (tasks r) (length (tasks r)) of
        Panic m \<Rightarrow> Panic m
      | Return ts \<Rightarrow>
          (case save c (r\<lparr>tasks := ts\<rparr>) w of (err, w1) \<Rightarrow> Return (err, r\<lparr>tasks := ts\<rparr>, w1)))"

section \<open>The command dispatcher\<close>

text \<open>
  \<^verbatim>\<open>strconv.Atoi\<close>: an optional sign, then one decimal digit or more, and a value
  that fits the 64 bits of an \<^verbatim>\<open>int\<close>; anything else is an error.
\<close>

fun digit_of :: "char \<Rightarrow> nat option" where
  "digit_of ch =
     (let k = (of_char ch :: nat) in if 48 \<le> k \<and> k \<le> 57 then Some (k - 48) else None)"

fun parse_digits :: "string \<Rightarrow> nat \<Rightarrow> nat option" where
  "parse_digits [] n = Some n"
| "parse_digits (ch # s) n =
     (case digit_of ch of None \<Rightarrow> None | Some d \<Rightarrow> parse_digits s (n * 10 + d))"

definition Atoi :: "string \<Rightarrow> int option" where
  "Atoi s0 =
     (case s0 of
        [] \<Rightarrow> None
      | ch # rest \<Rightarrow>
          (let s = (if ch = CHR ''-'' \<or> ch = CHR ''+'' then rest else s0) in
           if s = [] then None
           else
             (case parse_digits s 0 of
                None \<Rightarrow> None
              | Some n \<Rightarrow>
                  (let v = (if ch = CHR ''-'' then - int n else int n) in
                   if - (2 ^ 63) \<le> v \<and> v < 2 ^ 63 then Some v else None))))"

definition printUsage :: "'d world \<Rightarrow> 'd world" where
  "printUsage w =
     Println ''  list [status]''
       (Println ''  mark-done <id>''
          (Println ''  mark-in-progress <id>''
             (Println ''  delete <id>''
                (Println ''  update <id> <description>''
                   (Println ''  add <description>''
                      (Println ''Commands:''
                         (Println ''Usage: task-tracker <command> [args]'' w)))))))"

definition add ::
  "'d codec \<Rightarrow> string list \<Rightarrow> JsonTaskRepository \<Rightarrow> 'd world \<Rightarrow>
     error option \<times> JsonTaskRepository \<times> 'd world" where
  \<open>add c args repo w =
     (if length args \<noteq> 1 then
        (Some (ErrorString ''help: task-tracker add "task description"''), repo, w)
      else
        (case Add c (args ! 0) repo w of
           (task, Some err, repo', w1) \<Rightarrow> (Some (ErrorString (Error err)), repo', w1)
         | (task, None, repo', w1) \<Rightarrow>
             (None, repo', Println (''task added successfully (ID: '' @ Itoa (ID task) @ '')'') w1)))\<close>

definition update ::
  "'d codec \<Rightarrow> string list \<Rightarrow> JsonTaskRepository \<Rightarrow> 'd world \<Rightarrow>
     error option \<times> JsonTaskRepository \<times> 'd world" where
  \<open>update c args repo w =
     (if length args \<noteq> 2 then
        (Some (ErrorString ''help: task-tracker update 1 "new task description"''), repo, w)
      else
        (case Atoi (args ! 0) of
           None \<Rightarrow> (Some (ErrorString ''invalid id''), repo, w)
         | Some tid \<Rightarrow> Update c tid (args ! 1) repo w))\<close>

definition delete ::
  "'d codec \<Rightarrow> string list \<Rightarrow> JsonTaskRepository \<Rightarrow> 'd world \<Rightarrow>
     (error option \<times> JsonTaskRepository \<times> 'd world) outcome" where
  "delete c args repo w =
     (if length args \<noteq> 1 then
        Return (Some (ErrorString ''help: task-tracker delete 1''), repo, w)
      else
        (case Atoi (args ! 0) of
           None \<Rightarrow> Return (Some (ErrorString ''invalid id''), repo, w)
         | Some tid \<Rightarrow> Delete c tid repo w))"

definition markInProgress ::
  "'d codec \<Rightarrow> string list \<Rightarrow> JsonTaskRepository \<Rightarrow> 'd world \<Rightarrow>
     error option \<times> JsonTaskRepository \<times> 'd world" where
  "markInProgress c args repo w =
     (if length args \<noteq> 1 then
        (Some (ErrorString ''help: task-tracker mark-in-progress 1''), repo, w)
      else
        (case Atoi (args ! 0) of
           None \<Rightarrow> (Some (ErrorString ''invalid id''), repo, w)
         | Some tid \<Rightarrow> MarkInProgress c tid repo w))"

definition markDone ::
  "'d codec \<Rightarrow> string list \<Rightarrow> JsonTaskRepository \<Rightarrow> 'd world \<Rightarrow>
     error option \<times> JsonTaskRepository \<times> 'd world" where
  "markDone c args repo w =
     (if length args \<noteq> 1 then
        (Some (ErrorString ''help: task-tracker mark-done 1''), repo, w)
      else
        (case Atoi (args ! 0) of
           None \<Rightarrow> (Some (ErrorString ''invalid id''), repo, w)
         | Some tid \<Rightarrow> MarkDone c tid repo w))"

text \<open>\<^verbatim>\<open>for _, task := range tasks { fmt.Println(task.ID, task.Description, task.Status) }\<close>\<close>

definition print_tasks :: "Task list \<Rightarrow> 'd world \<Rightarrow> 'd world" where
  "print_tasks ts w =
     fold (\<lambda>task. Println (Itoa (ID task) @ '' '' @ Description task @ '' '' @ Status task)) ts w"

definition list ::
  "string list \<Rightarrow> JsonTaskRepository \<Rightarrow> 'd world \<Rightarrow>
     error option \<times> JsonTaskRepository \<times> 'd world" where
  "list args repo w =
     (if length args = 0 then
        (case ListTasks repo [] of
           (ts, Some err) \<Rightarrow> (Some (ErrorString (Error err)), repo, w)
         | (ts, None) \<Rightarrow> (None, repo, print_tasks ts w))
      else if length args = 1 then
        (if args ! 0 \<notin> set [''todo'', ''in-progress'', ''done''] then
           (Some (ErrorString ''invalid status''), repo, w)
         else
           (case ListTasks repo (args ! 0) of
              (ts, Some err) \<Rightarrow> (Some (ErrorString (Error err)), repo, w)
            | (ts, None) \<Rightarrow> (None, repo, print_tasks ts w)))
      else if length args > 1 then
        (Some (ErrorString (''help: task-tracker list'' @ [CHR 0x0A] @ ''task-cli list done'' @
           [CHR 0x0A] @ ''task-tracker list todo'' @ [CHR 0x0A] @
           ''task-tracker list in-progress'')), repo, w)
      else (None, repo, w))"

text \<open>
  What \<^verbatim>\<open>main\<close> does with the result of a command: exit status 0 with no error,
  \<^verbatim>\<open>Error: ...\<close> on the error stream and exit status 1 with one. An unrecovered
  panic makes the Go runtime print it on the error stream (the goroutine trace that
  follows is left out) and exit with status 2; \<open>w0\<close> is the world at that moment, the
  one the command started in, since the only panic comes before any effect.
\<close>

fun finish ::
  "'d world \<Rightarrow> (error option \<times> JsonTaskRepository \<times> 'd world) outcome \<Rightarrow> nat \<times> 'd world" where
  "finish w0 (Return (None, repo, w)) = (0, w)"
| "finish w0 (Return (Some err, repo, w)) = (1, Eprint (''Error: '' @ Error err @ [CHR 0x0A]) w)"
| "finish w0 (Panic m) = (2, Eprint (''panic: '' @ m @ [CHR 0x0A]) w0)"

text \<open>
  \<^verbatim>\<open>main\<close>, from \<^verbatim>\<open>os.Args\<close> (the program name first) and the world to the exit
  status and the world it leaves.
\<close>

definition main :: "'d codec \<Rightarrow> string list \<Rightarrow> 'd world \<Rightarrow> nat \<times> 'd world" where
  "main c Args w =
     (if length Args < 2 then (1, printUsage w)
      else
        (case newJsonTaskRepository c ''tasks.json'' w of
           (Inl err, w1) \<Rightarrow>
             (1, Eprint (''Error initializing repository: '' @ Error err @ [CHR 0x0A]) w1)
         | (Inr repo, w1) \<Rightarrow>
             (let command = Args ! 1; args = drop 2 Args in
              if command = ''add'' then finish w1 (Return (add c args repo w1))
              else if command = ''update'' then finish w1 (Return (update c args repo w1))
              else if command = ''delete'' then finish w1 (delete c args repo w1)
              else if command = ''mark-in-progress'' then
                finish w1 (Return (markInProgress c args repo w1))
              else if command = ''mark-done'' then finish w1 (Return (markDone c args repo w1))
              else if command = ''list'' then finish w1 (Return (list args repo w1))
              else (1, printUsage w1))))"

section \<open>Notions the properties are stated with\<close>

text \<open>
  What the loop \<open>range_set\<close> computes, as a recursion on the list: each task of the
  wanted id has its field set and gets the next reading \<open>clk k\<close> of the clock.
\<close>

fun stamp :: "(Task \<Rightarrow> Task) \<Rightarrow> int \<Rightarrow> (nat \<Rightarrow> time) \<Rightarrow> nat \<Rightarrow> Task list \<Rightarrow> Task list" where
  "stamp f tid clk k [] = []"
| "stamp f tid clk k (t # ts) =
     (if ID t = tid then (f t)\<lparr>UpdatedAt := clk k\<rparr> # stamp f tid clk (Suc k) ts
      else t # stamp f tid clk k ts)"

definition matches :: "int \<Rightarrow> Task list \<Rightarrow> nat" where
  "matches tid ts = length (filter (\<lambda>t. ID t = tid) ts)"

text \<open>A sequence of \<^verbatim>\<open>Add\<close> calls on one repository, with the tasks they return.\<close>

fun Adds ::
  "'d codec \<Rightarrow> string list \<Rightarrow> JsonTaskRepository \<Rightarrow> 'd world \<Rightarrow>
     Task list \<times> JsonTaskRepository \<times> 'd world" where
  "Adds c [] r w = ([], r, w)"
| "Adds c (d # ds) r w =
     (case Add c d r w of
        (task, err, r1, w1) \<Rightarrow>
          (case Adds c ds r1 w1 of (ts, r2, w2) \<Rightarrow> (task # ts, r2, w2)))"


text \<open>
  The command lines (of two words or more) that the dispatcher rejects: a command it does
  not know, a wrong number of operands, an id that is no integer, a status that
  \<^verbatim>\<open>list\<close> does not know.
\<close>

definition validation_failure :: "string list \<Rightarrow> bool" where
  "validation_failure Args \<longleftrightarrow>
     (let command = Args ! 1; args = drop 2 Args in
      if command = ''add'' then length args \<noteq> 1
      else if command = ''update'' then length args \<noteq> 2 \<or> Atoi (args ! 0) = None
      else if command = ''delete'' \<or> command = ''mark-in-progress'' \<or> command = ''mark-done''
        then length args \<noteq> 1 \<or> Atoi (args ! 0) = None
      else if command = ''list''
        then 1 < length args \<or>
          (length args = 1 \<and> args ! 0 \<notin> set [''todo'', ''in-progress'', ''done''])
      else True)"

text \<open>
  An environment to run the program in: a codec whose serialized form is the list itself,
  with one more content that does not deserialize, and a world with no file, no fault and
  a clock that reads 0, 1, 2, ...
\<close>

definition mem_codec :: "Task list option codec" where
  "mem_codec =
     \<lparr>marshal = (\<lambda>ts. Inr (Some ts)),
      unmarshal = (\<lambda>d. case d of None \<Rightarrow> Inl (JsonError ''invalid character'') | Some ts \<Rightarrow> Inr ts)\<rparr>"

definition fresh_world :: "Task list option world" where
  "fresh_world =
     \<lparr>files = Map.empty, read_fault = None, write_fault = None, trace = [],
      now = int, ticks = 0, stdout = [], stderr = []\<rparr>"

definition mk_task :: "int \<Rightarrow> string \<Rightarrow> string \<Rightarrow> time \<Rightarrow> time \<Rightarrow> Task" where
  "mk_task i d s ca ua = \<lparr>ID = i, Description = d, Status = s, CreatedAt = ca, UpdatedAt = ua\<rparr>"

text \<open>A repository in which two tasks share the id 3, and one whose ids are distinct.\<close>

definition dup_repo :: JsonTaskRepository where
  "dup_repo = \<lparr>filename = ''tasks.json'',
     tasks = [mk_task 1 ''a'' ''todo'' 0 0, mk_task 3 ''b'' ''todo'' 0 0, mk_task 3 ''c'' ''done'' 0 0]\<rparr>"

definition three_repo :: JsonTaskRepository where
  "three_repo = \<lparr>filename = ''tasks.json'',
     tasks = [mk_task 1 ''a'' ''todo'' 0 0, mk_task 2 ''b'' ''todo'' 0 0, mk_task 3 ''c'' ''done'' 0 0]\<rparr>"

text \<open>
  The same world with a file system that refuses every write, with a file whose content
  does not deserialize, with a file that holds the tasks of \<open>dup_repo\<close>, and with a clock
  that reads 10 first and 5 ever after.
\<close>

definition readonly_world :: "Task list option world" where
  "readonly_world = fresh_world\<lparr>write_fault := Some ''open tasks.json: permission denied''\<rparr>"

definition corrupt_world :: "Task list option world" where
  "corrupt_world = fresh_world\<lparr>files := [''tasks.json'' \<mapsto> None]\<rparr>"

definition stored_world :: "Task list option world" where
  "stored_world = fresh_world\<lparr>files := [''tasks.json'' \<mapsto> Some (tasks dup_repo)]\<rparr>"


section \<open>Properties of the loops\<close>

lemma fold_append_filter:
  "fold (\<lambda>t acc. if P t then acc @ [t] else acc) xs acc = acc @ filter P xs"
  by (induction xs arbitrary: acc) simp_all

lemma length_stamp [simp]: "length (stamp f tid clk k ts) = length ts"
  by (induction ts arbitrary: k) simp_all

lemma range_set_stamp:
  "i \<le> length ts \<Longrightarrow> n = length ts \<Longrightarrow>
   range_set f tid n i ts w =
     (take i ts @ stamp f tid (now w) (ticks w) (drop i ts),
      w\<lparr>ticks := ticks w + matches tid (drop i ts)\<rparr>)"
proof (induction f tid n i ts w rule: range_set.induct)
  case (1 f tid n i ts w)
  show ?case
  proof (cases "i < n")
    case False
    with "1.prems" show ?thesis
      by (subst range_set.simps) (simp add: matches_def)
  next
    case True
    with "1.prems" have d: "drop i ts = ts ! i # drop (Suc i) ts"
      by (simp add: Cons_nth_drop_Suc)
    show ?thesis
    proof (cases "ID (ts ! i) = tid")
      case False
      with True "1.prems" "1.IH"(2) d show ?thesis
        by (subst range_set.simps) (simp add: matches_def take_Suc_conv_app_nth)
    next
      case hit: True
      let ?x = "(f (ts ! i))\<lparr>UpdatedAt := now w (ticks w)\<rparr>"
      let ?w = "w\<lparr>ticks := Suc (ticks w)\<rparr>"
      have tn: "time_Now w = (now w (ticks w), ?w)" by (simp add: time_Now_def)
      from True "1.prems" have len: "Suc i \<le> length (ts[i := ?x])" "n = length (ts[i := ?x])"
        by simp_all
      note ih = "1.IH"(1) [OF True hit tn [symmetric] len]
      from True "1.prems" have tk: "take (Suc i) (ts[i := ?x]) = take i ts @ [?x]"
        by (simp add: take_Suc_conv_app_nth)
      from True hit tn ih tk d show ?thesis
        by (subst range_set.simps) (simp add: matches_def)
    qed
  qed
qed

lemma stamp_nth:
  "j < length ts \<Longrightarrow>
   stamp f tid clk k ts ! j =
     (if ID (ts ! j) = tid then (f (ts ! j))\<lparr>UpdatedAt := clk (k + matches tid (take j ts))\<rparr>
      else ts ! j)"
proof (induction ts arbitrary: k j)
  case Nil
  then show ?case by simp
next
  case (Cons t ts)
  show ?case
  proof (cases j)
    case 0
    then show ?thesis by (simp add: matches_def)
  next
    case (Suc m)
    with Cons.prems have "m < length ts" by simp
    from Cons.IH [OF this] Suc show ?thesis by (simp add: matches_def)
  qed
qed

lemma stamp_no_match: "tid \<notin> ID ` set ts \<Longrightarrow> stamp f tid clk k ts = ts"
  by (induction ts arbitrary: k) auto

lemma matches_no_match: "tid \<notin> ID ` set ts \<Longrightarrow> matches tid ts = 0"
  by (auto simp: matches_def filter_empty_conv)

lemma range_set_all:
  "range_set f tid (length ts) 0 ts w =
     (stamp f tid (now w) (ticks w) ts, w\<lparr>ticks := ticks w + matches tid ts\<rparr>)"
  using range_set_stamp [of 0 ts "length ts" f tid w] by simp

lemma Delete_loop_no_match:
  "\<forall>j. i \<le> j \<and> j < n \<longrightarrow> ID (arr ! j) \<noteq> tid \<Longrightarrow>
   Delete_loop tid n i arr len = Return (take len arr)"
proof (induction "n - i" arbitrary: i)
  case 0
  then show ?case by (subst Delete_loop.simps) simp
next
  case (Suc m)
  from Suc.hyps(2) have lt: "i < n" by simp
  from Suc.prems lt have miss: "ID (arr ! i) \<noteq> tid" by simp
  from Suc.hyps(2) have "m = n - Suc i" by simp
  moreover from Suc.prems have "\<forall>j. Suc i \<le> j \<and> j < n \<longrightarrow> ID (arr ! j) \<noteq> tid" by simp
  ultimately have "Delete_loop tid n (Suc i) arr len = Return (take len arr)"
    by (rule Suc.hyps(1))
  with lt miss show ?case by (subst Delete_loop.simps) simp
qed

lemma Delete_loop_skip:
  "\<forall>j. i \<le> j \<and> j < k \<longrightarrow> ID (arr ! j) \<noteq> tid \<Longrightarrow> i \<le> k \<Longrightarrow> k \<le> n \<Longrightarrow>
   Delete_loop tid n i arr len = Delete_loop tid n k arr len"
proof (induction "k - i" arbitrary: i)
  case 0
  then show ?case by simp
next
  case (Suc m)
  from Suc.hyps(2) Suc.prems have lt: "i < n" "i < k" by simp_all
  from Suc.prems lt have miss: "ID (arr ! i) \<noteq> tid" by simp
  from Suc.hyps(2) have "m = k - Suc i" by simp
  moreover from Suc.prems have "\<forall>j. Suc i \<le> j \<and> j < k \<longrightarrow> ID (arr ! j) \<noteq> tid" by simp
  moreover from lt have "Suc i \<le> k" by simp
  ultimately have "Delete_loop tid n (Suc i) arr len = Delete_loop tid n k arr len"
    using Suc.prems(3) by (rule Suc.hyps(1))
  with lt miss show ?case by (subst Delete_loop.simps) simp
qed

lemma Delete_loop_single:
  assumes xs: "tid \<notin> ID ` set xs" and ys: "tid \<notin> ID ` set ys" and t: "ID t = tid"
  shows "Delete_loop tid (length (xs @ t # ys)) 0 (xs @ t # ys) (length (xs @ t # ys)) =
           Return (xs @ ys)"
proof -
  let ?arr = "xs @ t # ys"
  let ?n = "length ?arr"
  let ?k = "length xs"
  let ?arr' = "xs @ ys @ [last (t # ys)]"
  from xs have "\<forall>j. 0 \<le> j \<and> j < ?k \<longrightarrow> ID (?arr ! j) \<noteq> tid"
    by (auto simp: nth_append)
  then have "Delete_loop tid ?n 0 ?arr ?n = Delete_loop tid ?n ?k ?arr ?n"
    by (rule Delete_loop_skip) simp_all
  also have "\<dots> = Delete_loop tid ?n (Suc ?k) ?arr' (?n - 1)"
  proof -
    have "drop (length ys) (t # ys) = [last (t # ys)]"
      by (induction ys arbitrary: t) simp_all
    then have "take ?k ?arr @ drop (?k + 1) (take ?n ?arr) @ drop (?n - 1) ?arr = ?arr'"
      by simp
    with t show ?thesis by (subst Delete_loop.simps) simp
  qed
  also have "\<dots> = Return (take (?n - 1) ?arr')"
  proof (rule Delete_loop_no_match, intro allI impI)
    fix j
    assume j: "Suc ?k \<le> j \<and> j < ?n"
    define m where "m = j - Suc ?k"
    with j have m: "j = ?k + Suc m" "m < length ys" by auto
    then have "ys \<noteq> []" by auto
    then have "(ys @ [last (t # ys)]) ! Suc m \<in> set ys"
      using m(2) by (cases "Suc m < length ys") (auto simp: nth_append less_Suc_eq last_in_set)
    moreover have "?arr' ! j = (ys @ [last (t # ys)]) ! Suc m"
      using m(1) by (simp add: nth_append)
    ultimately show "ID (?arr' ! j) \<noteq> tid" using ys by auto
  qed
  also have "take (?n - 1) ?arr' = xs @ ys" by simp
  finally show ?thesis .
qed


subsection \<open>The operations in terms of the list\<close>

lemma save_ok:
  "marshal c (tasks r) = Inr d \<Longrightarrow> write_fault w = None \<Longrightarrow>
   save c r w =
     (None, w\<lparr>files := (files w)(filename r \<mapsto> d), trace := trace w @ [WriteCall (filename r) d]\<rparr>)"
  by (simp add: save_def os_WriteFile_def)

lemma Update_stamp:
  "Update c tid d r w =
     (let r' = r\<lparr>tasks := stamp (\<lambda>t. t\<lparr>Description := d\<rparr>) tid (now w) (ticks w) (tasks r)\<rparr>;
          w1 = w\<lparr>ticks := ticks w + matches tid (tasks r)\<rparr>
      in (fst (save c r' w1), r', snd (save c r' w1)))"
  by (simp add: Update_def range_set_all Let_def case_prod_beta)

lemma MarkInProgress_stamp:
  "MarkInProgress c tid r w =
     (let r' = r\<lparr>tasks := stamp (\<lambda>t. t\<lparr>Status := ''in-progress''\<rparr>) tid (now w) (ticks w) (tasks r)\<rparr>;
          w1 = w\<lparr>ticks := ticks w + matches tid (tasks r)\<rparr>
      in (fst (save c r' w1), r', snd (save c r' w1)))"
  by (simp add: MarkInProgress_def range_set_all Let_def case_prod_beta)

lemma MarkDone_stamp:
  "MarkDone c tid r w =
     (let r' = r\<lparr>tasks := stamp (\<lambda>t. t\<lparr>Status := ''done''\<rparr>) tid (now w) (ticks w) (tasks r)\<rparr>;
          w1 = w\<lparr>ticks := ticks w + matches tid (tasks r)\<rparr>
      in (fst (save c r' w1), r', snd (save c r' w1)))"
  by (simp add: MarkDone_def range_set_all Let_def case_prod_beta)

lemma Delete_no_match:
  "tid \<notin> ID ` set (tasks r) \<Longrightarrow> Delete c tid r w = Return (fst (save c r w), r, snd (save c r w))"
proof -
  assume a: "tid \<notin> ID ` set (tasks r)"
  have "\<forall>j. 0 \<le> j \<and> j < length (tasks r) \<longrightarrow> ID (tasks r ! j) \<noteq> tid"
  proof (intro allI impI)
    fix j
    assume "0 \<le> j \<and> j < length (tasks r)"
    then have "tasks r ! j \<in> set (tasks r)" by simp
    with a show "ID (tasks r ! j) \<noteq> tid" by auto
  qed
  then have "Delete_loop tid (length (tasks r)) 0 (tasks r) (length (tasks r)) = Return (tasks r)"
    by (simp add: Delete_loop_no_match)
  then show ?thesis by (simp add: Delete_def case_prod_beta)
qed

lemma Delete_single:
  assumes "tid \<notin> ID ` set xs" "tid \<notin> ID ` set ys" "ID t = tid" "tasks r = xs @ t # ys"
  shows "Delete c tid r w =
           Return (fst (save c (r\<lparr>tasks := xs @ ys\<rparr>) w), r\<lparr>tasks := xs @ ys\<rparr>,
                   snd (save c (r\<lparr>tasks := xs @ ys\<rparr>) w))"
  using Delete_loop_single [OF assms(1-3)] assms(4)
  by (simp add: Delete_def case_prod_beta)

subsection \<open>Listing\<close>

text \<open>
  C7. \<^verbatim>\<open>List("")\<close> returns the whole list as it is; \<^verbatim>\<open>List(s)\<close> for a non-empty
  \<open>s\<close> returns exactly the tasks whose status is \<open>s\<close>, in their order in the list; and
  the error it returns is always \<^verbatim>\<open>nil\<close>, also when no task is left (the result is
  then the empty sequence).
\<close>

theorem List_filters_by_status:
  "ListTasks r s = (if s = [] then tasks r else filter (\<lambda>t. Status t = s) (tasks r), None)"
  by (simp add: ListTasks_def fold_append_filter)

subsection \<open>Tasks that share an id\<close>

text \<open>
  C10. \<^verbatim>\<open>Update\<close>, \<^verbatim>\<open>MarkInProgress\<close> and \<^verbatim>\<open>MarkDone\<close> change every task
  whose id is the given one, not only the first: the list keeps its length, the task at
  each position \<open>j\<close> with that id gets the new description (or status) and, as its
  \<^verbatim>\<open>UpdatedAt\<close>, the reading of the clock taken for it (there is one reading for each
  match, in the order of the list), and every other task stays as it is. So when two
  tasks or more share the id, all of them are changed.
\<close>

theorem mutations_reach_every_duplicate:
  "length (tasks (fst (snd (Update c tid d r w)))) = length (tasks r) \<and>
   length (tasks (fst (snd (MarkInProgress c tid r w)))) = length (tasks r) \<and>
   length (tasks (fst (snd (MarkDone c tid r w)))) = length (tasks r) \<and>
   (\<forall>j < length (tasks r).
      tasks (fst (snd (Update c tid d r w))) ! j =
        (if ID (tasks r ! j) = tid
         then (tasks r ! j)\<lparr>Description := d,
                UpdatedAt := now w (ticks w + matches tid (take j (tasks r)))\<rparr>
         else tasks r ! j) \<and>
      tasks (fst (snd (MarkInProgress c tid r w))) ! j =
        (if ID (tasks r ! j) = tid
         then (tasks r ! j)\<lparr>Status := ''in-progress'',
                UpdatedAt := now w (ticks w + matches tid (take j (tasks r)))\<rparr>
         else tasks r ! j) \<and>
      tasks (fst (snd (MarkDone c tid r w))) ! j =
        (if ID (tasks r ! j) = tid
         then (tasks r ! j)\<lparr>Status := ''done'',
                UpdatedAt := now w (ticks w + matches tid (take j (tasks r)))\<rparr>
         else tasks r ! j))"
  by (simp add: Update_stamp MarkInProgress_stamp MarkDone_stamp Let_def stamp_nth)

theorem mutations_reach_every_duplicate_witness:
  "(1::nat) < length (tasks dup_repo) \<and> 2 < length (tasks dup_repo) \<and>
   ID (tasks dup_repo ! 1) = 3 \<and> ID (tasks dup_repo ! 2) = 3 \<and>
   tasks (fst (snd (Update mem_codec 3 ''new'' dup_repo fresh_world))) ! 1 = mk_task 3 ''new'' ''todo'' 0 0 \<and>
   tasks (fst (snd (Update mem_codec 3 ''new'' dup_repo fresh_world))) ! 2 = mk_task 3 ''new'' ''done'' 0 1 \<and>
   tasks (fst (snd (MarkDone mem_codec 3 dup_repo fresh_world))) ! 1 = mk_task 3 ''b'' ''done'' 0 0 \<and>
   tasks (fst (snd (MarkDone mem_codec 3 dup_repo fresh_world))) ! 2 = mk_task 3 ''c'' ''done'' 0 1 \<and>
   tasks (fst (snd (MarkInProgress mem_codec 3 dup_repo fresh_world))) ! 1 = mk_task 3 ''b'' ''in-progress'' 0 0 \<and>
   tasks (fst (snd (MarkInProgress mem_codec 3 dup_repo fresh_world))) ! 2 = mk_task 3 ''c'' ''in-progress'' 0 1"
proof -
  note every = mutations_reach_every_duplicate
    [of mem_codec 3 "''new''" dup_repo fresh_world,
      THEN conjunct2, THEN conjunct2, THEN conjunct2, rule_format]
  show ?thesis
    using every [of 1] every [of 2]
    by (simp add: dup_repo_def mk_task_def fresh_world_def matches_def)
qed

subsection \<open>Ids are assigned by counting\<close>

lemma Add_result:
  "Add c d r w = (t, e, r', w') \<Longrightarrow>
   t = \<lparr>ID = int (length (tasks r)) + 1, Description = d, Status = ''todo'',
        CreatedAt = now w (ticks w), UpdatedAt = now w (Suc (ticks w))\<rparr> \<and>
   r' = r\<lparr>tasks := tasks r @ [t]\<rparr> \<and>
   (e, w') = save c r' (w\<lparr>ticks := Suc (Suc (ticks w))\<rparr>)"
  by (auto simp: Add_def Let_def time_Now_def case_prod_beta)

lemma Adds_ids:
  "map ID (fst (Adds c ds r w)) =
     map (\<lambda>k. int (length (tasks r)) + 1 + int k) [0..<length ds]"
proof (induction ds arbitrary: r w)
  case Nil
  then show ?case by simp
next
  case (Cons d ds)
  obtain t e r1 w1 where a: "Add c d r w = (t, e, r1, w1)"
    by (cases "Add c d r w") auto
  from Add_result [OF a] have t: "ID t = int (length (tasks r)) + 1"
    and l: "length (tasks r1) = Suc (length (tasks r))" by simp_all
  obtain ts r2 w2 where b: "Adds c ds r1 w1 = (ts, r2, w2)"
    by (cases "Adds c ds r1 w1") auto
  from Cons.IH [of r1 w1] b l
  have "map ID ts = map (\<lambda>k. int (length (tasks r)) + 1 + int (Suc k)) [0..<length ds]"
    by simp
  with a b t show ?case by (simp add: map_upt_Suc del: upt_Suc)
qed

text \<open>
  C1. \<^verbatim>\<open>Add\<close> gives the new task the id \<open>length of the list + 1\<close>, whatever ids the
  list holds. So in a sequence of \<^verbatim>\<open>Add\<close> calls on a repository that starts empty the
  call number \<open>n\<close> (counted from 1) assigns the id \<open>n\<close>. And after adding three tasks
  (ids 1, 2, 3), deleting the task 2 and adding one more, the new task gets the id 3,
  which the third task still has: the list then holds the ids 1, 3, 3.
\<close>

theorem Add_assigns_count_plus_one:
  "ID (fst (Add c d r w)) = int (length (tasks r)) + 1 \<and>
   map ID (fst (Adds c ds \<lparr>filename = f, tasks = []\<rparr> w)) =
     map (\<lambda>k. int k + 1) [0..<length ds] \<and>
   (case Add c d1 \<lparr>filename = f, tasks = []\<rparr> w of (t1, e1, r1, w1) \<Rightarrow>
    case Add c d2 r1 w1 of (t2, e2, r2, w2) \<Rightarrow>
    case Add c d3 r2 w2 of (t3, e3, r3, w3) \<Rightarrow>
      map ID (tasks r3) = [1, 2, 3] \<and>
      (case Delete c 2 r3 w3 of
         Panic m \<Rightarrow> False
       | Return (e4, r4, w4) \<Rightarrow>
           map ID (tasks r4) = [1, 3] \<and>
           (case Add c d4 r4 w4 of (t5, e5, r5, w5) \<Rightarrow>
              ID t5 = 3 \<and> map ID (tasks r5) = [1, 3, 3])))"
proof (intro conjI)
  show "ID (fst (Add c d r w)) = int (length (tasks r)) + 1"
    by (simp add: Add_def Let_def time_Now_def case_prod_beta)
  show "map ID (fst (Adds c ds \<lparr>filename = f, tasks = []\<rparr> w)) =
     map (\<lambda>k. int k + 1) [0..<length ds]"
    using Adds_ids [of c ds "\<lparr>filename = f, tasks = []\<rparr>" w] by (simp add: add.commute)
  let ?r0 = "\<lparr>filename = f, tasks = []\<rparr>"
  obtain t1 e1 r1 w1 where a1: "Add c d1 ?r0 w = (t1, e1, r1, w1)"
    by (cases "Add c d1 ?r0 w") auto
  obtain t2 e2 r2 w2 where a2: "Add c d2 r1 w1 = (t2, e2, r2, w2)"
    by (cases "Add c d2 r1 w1") auto
  obtain t3 e3 r3 w3 where a3: "Add c d3 r2 w2 = (t3, e3, r3, w3)"
    by (cases "Add c d3 r2 w2") auto
  from Add_result [OF a1] have r1: "tasks r1 = [t1]" "ID t1 = 1" by simp_all
  from Add_result [OF a2] r1 have r2: "tasks r2 = [t1, t2]" "ID t2 = 2" by simp_all
  from Add_result [OF a3] r2 have r3: "tasks r3 = [t1] @ t2 # [t3]" "ID t3 = 3" by simp_all
  let ?r4 = "r3\<lparr>tasks := [t1] @ [t3]\<rparr>"
  have d: "Delete c 2 r3 w3 = Return (fst (save c ?r4 w3), ?r4, snd (save c ?r4 w3))"
    using r1 r2 r3 by (intro Delete_single) simp_all
  obtain t5 e5 r5 w5 where a5: "Add c d4 ?r4 (snd (save c ?r4 w3)) = (t5, e5, r5, w5)"
    by (cases "Add c d4 ?r4 (snd (save c ?r4 w3))") auto
  from Add_result [OF a5] have r5: "tasks r5 = [t1, t3, t5]" "ID t5 = 3" by simp_all
  from a1 a2 a3 d a5 r1 r2 r3 r5
  show "case Add c d1 ?r0 w of (t1, e1, r1, w1) \<Rightarrow>
    case Add c d2 r1 w1 of (t2, e2, r2, w2) \<Rightarrow>
    case Add c d3 r2 w2 of (t3, e3, r3, w3) \<Rightarrow>
      map ID (tasks r3) = [1, 2, 3] \<and>
      (case Delete c 2 r3 w3 of
         Panic m \<Rightarrow> False
       | Return (e4, r4, w4) \<Rightarrow>
           map ID (tasks r4) = [1, 3] \<and>
           (case Add c d4 r4 w4 of (t5, e5, r5, w5) \<Rightarrow>
              ID t5 = 3 \<and> map ID (tasks r5) = [1, 3, 3]))"
    by simp
qed

subsection \<open>An id that no task has\<close>

text \<open>
  C2. When no task has the given id, \<^verbatim>\<open>Update\<close>, \<^verbatim>\<open>Delete\<close>,
  \<^verbatim>\<open>MarkInProgress\<close> and \<^verbatim>\<open>MarkDone\<close> leave the list as it is, read no clock and
  return just what \<^verbatim>\<open>save\<close> returns on the unchanged repository: the save is still
  made. When the list serializes and the file can be written, that is no error, and the
  file is written anew with the serialized unchanged list.
\<close>

theorem no_match_mutations_succeed:
  assumes "tid \<notin> ID ` set (tasks r)"
  shows "Update c tid d r w = (fst (save c r w), r, snd (save c r w)) \<and>
         Delete c tid r w = Return (fst (save c r w), r, snd (save c r w)) \<and>
         MarkInProgress c tid r w = (fst (save c r w), r, snd (save c r w)) \<and>
         MarkDone c tid r w = (fst (save c r w), r, snd (save c r w)) \<and>
         (\<forall>data. marshal c (tasks r) = Inr data \<and> write_fault w = None \<longrightarrow>
            save c r w =
              (None, w\<lparr>files := (files w)(filename r \<mapsto> data),
                        trace := trace w @ [WriteCall (filename r) data]\<rparr>))"
  using assms
  by (simp add: Update_stamp MarkInProgress_stamp MarkDone_stamp Delete_no_match
      stamp_no_match matches_no_match Let_def save_ok)

theorem no_match_mutations_succeed_witness:
  "7 \<notin> ID ` set (tasks dup_repo) \<and>
   Update mem_codec 7 ''x'' dup_repo fresh_world =
     (None, dup_repo,
      fresh_world\<lparr>files := [''tasks.json'' \<mapsto> Some (tasks dup_repo)],
                   trace := [WriteCall ''tasks.json'' (Some (tasks dup_repo))]\<rparr>) \<and>
   Delete mem_codec 7 dup_repo fresh_world =
     Return (None, dup_repo,
      fresh_world\<lparr>files := [''tasks.json'' \<mapsto> Some (tasks dup_repo)],
                   trace := [WriteCall ''tasks.json'' (Some (tasks dup_repo))]\<rparr>) \<and>
   MarkInProgress mem_codec 7 dup_repo fresh_world =
     (None, dup_repo,
      fresh_world\<lparr>files := [''tasks.json'' \<mapsto> Some (tasks dup_repo)],
                   trace := [WriteCall ''tasks.json'' (Some (tasks dup_repo))]\<rparr>) \<and>
   MarkDone mem_codec 7 dup_repo fresh_world =
     (None, dup_repo,
      fresh_world\<lparr>files := [''tasks.json'' \<mapsto> Some (tasks dup_repo)],
                   trace := [WriteCall ''tasks.json'' (Some (tasks dup_repo))]\<rparr>)"
proof -
  have h: "7 \<notin> ID ` set (tasks dup_repo)" by (simp add: dup_repo_def mk_task_def)
  have m: "marshal mem_codec (tasks dup_repo) = Inr (Some (tasks dup_repo))"
    and f: "write_fault fresh_world = None" "filename dup_repo = ''tasks.json''"
      "files fresh_world = Map.empty" "trace fresh_world = []"
    by (simp_all add: mem_codec_def fresh_world_def dup_repo_def)
  from no_match_mutations_succeed [OF h, of mem_codec "''x''" fresh_world] m f h
  show ?thesis by simp
qed

subsection \<open>Deleting a task\<close>

text \<open>
  C6. When the ids of the list are pairwise distinct and one task has the given id,
  \<^verbatim>\<open>Delete\<close> returns (it does not panic) and leaves the list without that one task:
  the tasks before it, then the tasks after it, in their order. The list is one shorter.
  \<^verbatim>\<open>Delete\<close> then returns what \<^verbatim>\<open>save\<close> returns on that list.
\<close>

theorem Delete_removes_the_one_task:
  assumes "distinct (map ID (tasks r))" and "tid \<in> ID ` set (tasks r)"
  shows "Delete c tid r w =
           Return (fst (save c (r\<lparr>tasks := filter (\<lambda>t. ID t \<noteq> tid) (tasks r)\<rparr>) w),
                   r\<lparr>tasks := filter (\<lambda>t. ID t \<noteq> tid) (tasks r)\<rparr>,
                   snd (save c (r\<lparr>tasks := filter (\<lambda>t. ID t \<noteq> tid) (tasks r)\<rparr>) w)) \<and>
         (\<exists>xs t ys. tasks r = xs @ t # ys \<and> ID t = tid \<and>
            filter (\<lambda>t. ID t \<noteq> tid) (tasks r) = xs @ ys) \<and>
         Suc (length (filter (\<lambda>t. ID t \<noteq> tid) (tasks r))) = length (tasks r)"
proof -
  from assms(2) obtain t where t: "t \<in> set (tasks r)" "ID t = tid" by auto
  then obtain xs ys where sp: "tasks r = xs @ t # ys" by (auto dest: split_list)
  with assms(1) t(2) have xs: "tid \<notin> ID ` set xs" and ys: "tid \<notin> ID ` set ys" by auto
  from xs have fx: "filter (\<lambda>t. ID t \<noteq> tid) xs = xs" by (auto simp: filter_id_conv)
  from ys have fy: "filter (\<lambda>t. ID t \<noteq> tid) ys = ys" by (auto simp: filter_id_conv)
  from sp t(2) fx fy have f: "filter (\<lambda>t. ID t \<noteq> tid) (tasks r) = xs @ ys" by simp
  from Delete_single [OF xs ys t(2) sp, of c w] f sp t(2) show ?thesis by auto
qed

theorem Delete_removes_the_one_task_witness:
  "distinct (map ID (tasks three_repo)) \<and> 2 \<in> ID ` set (tasks three_repo) \<and>
   Delete mem_codec 2 three_repo fresh_world =
     Return (None,
       three_repo\<lparr>tasks := [mk_task 1 ''a'' ''todo'' 0 0, mk_task 3 ''c'' ''done'' 0 0]\<rparr>,
       fresh_world\<lparr>files := [''tasks.json'' \<mapsto>
                       Some [mk_task 1 ''a'' ''todo'' 0 0, mk_task 3 ''c'' ''done'' 0 0]],
                    trace := [WriteCall ''tasks.json''
                       (Some [mk_task 1 ''a'' ''todo'' 0 0, mk_task 3 ''c'' ''done'' 0 0])]\<rparr>)"
proof -
  have h: "distinct (map ID (tasks three_repo))" "2 \<in> ID ` set (tasks three_repo)"
    by (simp_all add: three_repo_def mk_task_def)
  have fl: "filter (\<lambda>t. ID t \<noteq> 2) (tasks three_repo) =
      [mk_task 1 ''a'' ''todo'' 0 0, mk_task 3 ''c'' ''done'' 0 0]"
    by (simp add: three_repo_def mk_task_def)
  from Delete_removes_the_one_task [OF h, of mem_codec fresh_world] h fl
  show ?thesis
    by (simp add: save_def os_WriteFile_def mem_codec_def fresh_world_def three_repo_def)
qed

text \<open>
  The distinct ids matter. When a later task has the id too, the range reaches the cell
  that was last, which \<^verbatim>\<open>append\<close> left as it was, while \<^verbatim>\<open>r.tasks\<close> is already
  shorter: with the ids 1, 3, 3 the slice expression \<^verbatim>\<open>r.tasks[3:]\<close> panics.
\<close>

lemma Delete_panics_on_later_duplicate:
  "Delete mem_codec 3 dup_repo fresh_world =
     Panic ''runtime error: slice bounds out of range [3:2]''"
  by (simp add: Delete_def Delete_loop.simps dup_repo_def mk_task_def Itoa_def nat_digits.simps)

subsection \<open>Adding a task when the save fails\<close>

text \<open>
  C4. \<^verbatim>\<open>Add\<close> appends the new task to the list in memory before it saves: the
  list it leaves is always the old list with the returned task at its end, and what it
  tries to write is the serialization of that longer list. When the write is refused,
  \<^verbatim>\<open>Add\<close> returns the error of the write and the file is as it was, while the list in
  memory still holds the new task; the same when the list does not serialize. Nothing
  is rolled back.
\<close>

theorem Add_keeps_the_task_when_save_fails:
  "tasks (fst (snd (snd (Add c d r w)))) = tasks r @ [fst (Add c d r w)] \<and>
   (\<forall>m data. write_fault w = Some m \<and> marshal c (tasks r @ [fst (Add c d r w)]) = Inr data \<longrightarrow>
      fst (snd (Add c d r w)) = Some (PathError m) \<and>
      files (snd (snd (snd (Add c d r w)))) = files w \<and>
      trace (snd (snd (snd (Add c d r w)))) = trace w @ [WriteCall (filename r) data]) \<and>
   (\<forall>e. marshal c (tasks r @ [fst (Add c d r w)]) = Inl e \<longrightarrow>
      fst (snd (Add c d r w)) = Some (ErrorString (''failed to marshal tasks: '' @ Error e)) \<and>
      files (snd (snd (snd (Add c d r w)))) = files w \<and>
      trace (snd (snd (snd (Add c d r w)))) = trace w)"
  by (simp add: Add_def Let_def time_Now_def case_prod_beta save_def os_WriteFile_def)

theorem Add_keeps_the_task_when_save_fails_witness:
  "write_fault readonly_world = Some ''open tasks.json: permission denied'' \<and>
   marshal mem_codec (tasks three_repo @ [mk_task 4 ''d'' ''todo'' 0 1]) =
     Inr (Some (tasks three_repo @ [mk_task 4 ''d'' ''todo'' 0 1])) \<and>
   fst (Add mem_codec ''d'' three_repo readonly_world) = mk_task 4 ''d'' ''todo'' 0 1 \<and>
   fst (snd (Add mem_codec ''d'' three_repo readonly_world)) =
     Some (PathError ''open tasks.json: permission denied'') \<and>
   tasks (fst (snd (snd (Add mem_codec ''d'' three_repo readonly_world)))) =
     tasks three_repo @ [mk_task 4 ''d'' ''todo'' 0 1] \<and>
   files (snd (snd (snd (Add mem_codec ''d'' three_repo readonly_world)))) = Map.empty"
proof -
  have t: "fst (Add mem_codec ''d'' three_repo readonly_world) = mk_task 4 ''d'' ''todo'' 0 1"
    by (simp add: Add_def Let_def time_Now_def case_prod_beta three_repo_def readonly_world_def
        fresh_world_def mk_task_def)
  have w: "write_fault readonly_world = Some ''open tasks.json: permission denied''"
    "files readonly_world = Map.empty"
    by (simp_all add: readonly_world_def fresh_world_def)
  have m: "marshal mem_codec (tasks three_repo @ [mk_task 4 ''d'' ''todo'' 0 1]) =
     Inr (Some (tasks three_repo @ [mk_task 4 ''d'' ''todo'' 0 1]))"
    by (simp add: mem_codec_def)
  from Add_keeps_the_task_when_save_fails [of mem_codec "''d''" three_repo readonly_world] t w m
  show ?thesis by simp
qed

subsection \<open>The invariant of the tasks\<close>












subsection \<open>Constructing the repository\<close>

lemma new_repo_absent:
  "read_fault w = None \<Longrightarrow> files w n = None \<Longrightarrow> marshal c [] = Inr d0 \<Longrightarrow>
   write_fault w = None \<Longrightarrow>
   newJsonTaskRepository c n w =
     (Inr \<lparr>filename = n, tasks = []\<rparr>,
      w\<lparr>files := (files w)(n \<mapsto> d0), trace := trace w @ [ReadCall n, WriteCall n d0]\<rparr>)"
  by (simp add: newJsonTaskRepository_def load_def os_ReadFile_def os_WriteFile_def)

lemma new_repo_corrupt:
  "read_fault w = None \<Longrightarrow> files w n = Some d \<Longrightarrow> unmarshal c d = Inl e \<Longrightarrow>
   newJsonTaskRepository c n w = (Inl e, w\<lparr>trace := trace w @ [ReadCall n]\<rparr>)"
  by (simp add: newJsonTaskRepository_def load_def os_ReadFile_def)

lemma new_repo_present:
  "read_fault w = None \<Longrightarrow> files w n = Some d \<Longrightarrow> unmarshal c d = Inr ts \<Longrightarrow>
   newJsonTaskRepository c n w =
     (Inr \<lparr>filename = n, tasks = ts\<rparr>, w\<lparr>trace := trace w @ [ReadCall n]\<rparr>)"
  by (simp add: newJsonTaskRepository_def load_def os_ReadFile_def)

lemma new_repo_reads:
  "\<exists>rest. trace (snd (newJsonTaskRepository c n w)) = trace w @ ReadCall n # rest"
  by (auto simp: newJsonTaskRepository_def load_def os_ReadFile_def os_WriteFile_def
      split: option.splits sum.splits)

lemma new_repo_ticks: "ticks (snd (newJsonTaskRepository c n w)) = ticks w"
  by (auto simp: newJsonTaskRepository_def load_def os_ReadFile_def os_WriteFile_def
      split: option.splits sum.splits)

lemma Println_world [simp]:
  "files (Println s w) = files w" "trace (Println s w) = trace w" "ticks (Println s w) = ticks w"
  "stderr (Println s w) = stderr w" "stdout (Println s w) = stdout w @ s @ [CHR 0x0A]"
  by (simp_all add: Println_def)

lemma Eprint_world [simp]:
  "files (Eprint s w) = files w" "trace (Eprint s w) = trace w" "ticks (Eprint s w) = ticks w"
  "stdout (Eprint s w) = stdout w" "stderr (Eprint s w) = stderr w @ s"
  by (simp_all add: Eprint_def)

lemma printUsage_world [simp]:
  "files (printUsage w) = files w" "trace (printUsage w) = trace w"
  "ticks (printUsage w) = ticks w" "stderr (printUsage w) = stderr w"
  by (simp_all add: printUsage_def)

text \<open>
  C5. Let the file be readable when it is there. If there is no file of the name, the
  construction creates it (when the operating system lets it write) with the serialized
  empty list as its content, and the list in memory is empty. If the file is there and
  its content does not deserialize, the construction fails with the error of the
  deserialization, the file is only read, and \<^verbatim>\<open>main\<close> reports the error and exits
  with status 1 without running any command. If the file is there and its content
  deserializes to a list, that whole list is the list in memory.
\<close>

theorem construction_reads_or_creates_the_file:
  assumes "read_fault w = None"
  shows "(\<forall>d0. files w n = None \<and> marshal c [] = Inr d0 \<and> write_fault w = None \<longrightarrow>
            newJsonTaskRepository c n w =
              (Inr \<lparr>filename = n, tasks = []\<rparr>,
               w\<lparr>files := (files w)(n \<mapsto> d0),
                 trace := trace w @ [ReadCall n, WriteCall n d0]\<rparr>)) \<and>
         (\<forall>d e. files w n = Some d \<and> unmarshal c d = Inl e \<longrightarrow>
            newJsonTaskRepository c n w = (Inl e, w\<lparr>trace := trace w @ [ReadCall n]\<rparr>) \<and>
            (\<forall>Args. 2 \<le> length Args \<and> n = ''tasks.json'' \<longrightarrow>
               main c Args w =
                 (1, Eprint (''Error initializing repository: '' @ Error e @ [CHR 0x0A])
                       (w\<lparr>trace := trace w @ [ReadCall n]\<rparr>)))) \<and>
         (\<forall>d ts. files w n = Some d \<and> unmarshal c d = Inr ts \<longrightarrow>
            newJsonTaskRepository c n w =
              (Inr \<lparr>filename = n, tasks = ts\<rparr>, w\<lparr>trace := trace w @ [ReadCall n]\<rparr>))"
  using assms
  by (auto simp: new_repo_absent new_repo_corrupt new_repo_present main_def)

theorem construction_reads_or_creates_the_file_witness:
  "read_fault fresh_world = None \<and> files fresh_world ''tasks.json'' = None \<and>
   marshal mem_codec [] = Inr (Some []) \<and> write_fault fresh_world = None \<and>
   newJsonTaskRepository mem_codec ''tasks.json'' fresh_world =
     (Inr \<lparr>filename = ''tasks.json'', tasks = []\<rparr>,
      fresh_world\<lparr>files := [''tasks.json'' \<mapsto> Some []],
                   trace := [ReadCall ''tasks.json'', WriteCall ''tasks.json'' (Some [])]\<rparr>) \<and>
   read_fault corrupt_world = None \<and> files corrupt_world ''tasks.json'' = Some None \<and>
   unmarshal mem_codec None = Inl (JsonError ''invalid character'') \<and>
   newJsonTaskRepository mem_codec ''tasks.json'' corrupt_world =
     (Inl (JsonError ''invalid character''), corrupt_world\<lparr>trace := [ReadCall ''tasks.json'']\<rparr>) \<and>
   (2::nat) \<le> length [''task-tracker'', ''add'', ''buy milk''] \<and>
   main mem_codec [''task-tracker'', ''add'', ''buy milk''] corrupt_world =
     (1, corrupt_world\<lparr>trace := [ReadCall ''tasks.json''],
           stderr := ''Error initializing repository: invalid character'' @ [CHR 0x0A]\<rparr>) \<and>
   read_fault stored_world = None \<and>
   files stored_world ''tasks.json'' = Some (Some (tasks dup_repo)) \<and>
   unmarshal mem_codec (Some (tasks dup_repo)) = Inr (tasks dup_repo) \<and>
   newJsonTaskRepository mem_codec ''tasks.json'' stored_world =
     (Inr \<lparr>filename = ''tasks.json'', tasks = tasks dup_repo\<rparr>,
      stored_world\<lparr>trace := [ReadCall ''tasks.json'']\<rparr>)"
proof -
  have f: "read_fault fresh_world = None" "files fresh_world = Map.empty"
    "write_fault fresh_world = None" "trace fresh_world = []"
    by (simp_all add: fresh_world_def)
  have k: "read_fault corrupt_world = None" "files corrupt_world ''tasks.json'' = Some None"
    "trace corrupt_world = []" "stderr corrupt_world = []"
    by (simp_all add: corrupt_world_def fresh_world_def)
  have s: "read_fault stored_world = None"
    "files stored_world ''tasks.json'' = Some (Some (tasks dup_repo))" "trace stored_world = []"
    by (simp_all add: stored_world_def fresh_world_def)
  have m: "marshal mem_codec [] = Inr (Some [])"
    "unmarshal mem_codec None = Inl (JsonError ''invalid character'')"
    "unmarshal mem_codec (Some (tasks dup_repo)) = Inr (tasks dup_repo)"
    by (simp_all add: mem_codec_def)
  note a = construction_reads_or_creates_the_file
    [OF f(1), of "''tasks.json''" mem_codec, THEN conjunct1, rule_format, of "Some []"]
  note b = construction_reads_or_creates_the_file
    [OF k(1), of "''tasks.json''" mem_codec, THEN conjunct2, THEN conjunct1, rule_format,
      of None "JsonError ''invalid character''"]
  note b1 = b [THEN conjunct1] and b2 = b [THEN conjunct2, rule_format,
      of "[''task-tracker'', ''add'', ''buy milk'']"]
  note d = construction_reads_or_creates_the_file
    [OF s(1), of "''tasks.json''" mem_codec, THEN conjunct2, THEN conjunct2, rule_format,
      of "Some (tasks dup_repo)" "tasks dup_repo"]
  from a b1 b2 d f k s m show ?thesis by (simp add: Eprint_def)
qed

subsection \<open>Command lines the dispatcher rejects\<close>

lemma rejected_command:
  assumes len: "2 \<le> length Args" and bad: "validation_failure Args"
    and nr: "newJsonTaskRepository c ''tasks.json'' w = (res, w1)"
  shows "fst (main c Args w) = 1 \<and> files (snd (main c Args w)) = files w1 \<and>
         trace (snd (main c Args w)) = trace w1 \<and> ticks (snd (main c Args w)) = ticks w1"
proof (cases res)
  case (Inl e)
  with len nr show ?thesis by (simp add: main_def)
next
  case (Inr repo)
  with len nr have m: "main c Args w =
    (let command = Args ! 1; args = drop 2 Args in
              if command = ''add'' then finish w1 (Return (add c args repo w1))
              else if command = ''update'' then finish w1 (Return (update c args repo w1))
              else if command = ''delete'' then finish w1 (delete c args repo w1)
              else if command = ''mark-in-progress'' then
                finish w1 (Return (markInProgress c args repo w1))
              else if command = ''mark-done'' then finish w1 (Return (markDone c args repo w1))
              else if command = ''list'' then finish w1 (Return (list args repo w1))
              else (1, printUsage w1))"
    by (simp add: main_def)
  consider (add) "Args ! 1 = ''add''" | (update) "Args ! 1 = ''update''"
    | (delete) "Args ! 1 = ''delete''" | (mip) "Args ! 1 = ''mark-in-progress''"
    | (md) "Args ! 1 = ''mark-done''" | (list) "Args ! 1 = ''list''"
    | (other) "Args ! 1 \<noteq> ''add''" "Args ! 1 \<noteq> ''update''" "Args ! 1 \<noteq> ''delete''"
        "Args ! 1 \<noteq> ''mark-in-progress''" "Args ! 1 \<noteq> ''mark-done''" "Args ! 1 \<noteq> ''list''"
    by blast
  then show ?thesis
  proof cases
    case add
    with bad m show ?thesis by (auto simp: validation_failure_def add_def Let_def)
  next
    case update
    with bad m show ?thesis by (auto simp: validation_failure_def update_def Let_def)
  next
    case delete
    with bad m show ?thesis by (auto simp: validation_failure_def delete_def Let_def)
  next
    case mip
    with bad m show ?thesis by (auto simp: validation_failure_def markInProgress_def Let_def)
  next
    case md
    with bad m show ?thesis by (auto simp: validation_failure_def markDone_def Let_def)
  next
    case list
    with bad m show ?thesis by (auto simp: validation_failure_def list_def Let_def)
  next
    case other
    with m show ?thesis by (simp add: Let_def)
  qed
qed

text \<open>
  C3, as the claim states it, fails: \<^verbatim>\<open>main\<close> constructs the repository before it looks
  at the command. With no file \<^verbatim>\<open>tasks.json\<close>, both \<^verbatim>\<open>list bogus\<close> and the unknown
  command \<^verbatim>\<open>bogus\<close> exit with status 1, but the file has been read and has been created
  with the serialized empty list.
\<close>

theorem rejected_command_touches_the_file:
  "fst (main mem_codec [''task-tracker'', ''list'', ''bogus''] fresh_world) = 1 \<and>
   files fresh_world ''tasks.json'' = None \<and> trace fresh_world = [] \<and>
   trace (snd (main mem_codec [''task-tracker'', ''list'', ''bogus''] fresh_world)) =
     [ReadCall ''tasks.json'', WriteCall ''tasks.json'' (Some [])] \<and>
   files (snd (main mem_codec [''task-tracker'', ''list'', ''bogus''] fresh_world)) ''tasks.json'' =
     Some (Some []) \<and>
   fst (main mem_codec [''task-tracker'', ''bogus''] fresh_world) = 1 \<and>
   trace (snd (main mem_codec [''task-tracker'', ''bogus''] fresh_world)) =
     [ReadCall ''tasks.json'', WriteCall ''tasks.json'' (Some [])] \<and>
   files (snd (main mem_codec [''task-tracker'', ''bogus''] fresh_world)) ''tasks.json'' =
     Some (Some [])"
proof -
  have nr: "newJsonTaskRepository mem_codec ''tasks.json'' fresh_world =
     (Inr \<lparr>filename = ''tasks.json'', tasks = []\<rparr>,
      fresh_world\<lparr>files := [''tasks.json'' \<mapsto> Some []],
                   trace := [ReadCall ''tasks.json'', WriteCall ''tasks.json'' (Some [])]\<rparr>)"
    using new_repo_absent [of fresh_world "''tasks.json''" mem_codec "Some []"]
    by (simp add: fresh_world_def mem_codec_def)
  have f: "files fresh_world ''tasks.json'' = None" "trace fresh_world = []"
    by (simp_all add: fresh_world_def)
  from nr f show ?thesis by (simp add: main_def list_def)
qed

text \<open>
  C3, amended. Every command line that the dispatcher rejects (unknown command, wrong
  number of operands, an id that is no integer, an unknown status for \<^verbatim>\<open>list\<close>) ends
  with exit status 1, and the only file accesses are those of the construction of the
  repository, which comes first: the files and the record of file system calls are
  those the construction leaves, the record has the read of \<^verbatim>\<open>tasks.json\<close> in it, and
  the clock is not read.
\<close>

theorem rejected_command_after_construction:
  assumes "2 \<le> length Args" and "validation_failure Args"
  shows "fst (main c Args w) = 1 \<and>
     files (snd (main c Args w)) = files (snd (newJsonTaskRepository c ''tasks.json'' w)) \<and>
     trace (snd (main c Args w)) = trace (snd (newJsonTaskRepository c ''tasks.json'' w)) \<and>
     ticks (snd (main c Args w)) = ticks w \<and>
     (\<exists>rest. trace (snd (main c Args w)) = trace w @ ReadCall ''tasks.json'' # rest)"
proof -
  obtain res w1 where nr: "newJsonTaskRepository c ''tasks.json'' w = (res, w1)"
    by (cases "newJsonTaskRepository c ''tasks.json'' w") auto
  from rejected_command [OF assms nr] nr new_repo_reads [of c "''tasks.json''" w]
    new_repo_ticks [of c "''tasks.json''" w]
  show ?thesis by simp
qed

theorem rejected_command_after_construction_witness:
  "(2::nat) \<le> length [''task-tracker'', ''list'', ''bogus''] \<and>
   validation_failure [''task-tracker'', ''list'', ''bogus''] \<and>
   fst (main mem_codec [''task-tracker'', ''list'', ''bogus''] fresh_world) = 1 \<and>
   files (snd (main mem_codec [''task-tracker'', ''list'', ''bogus''] fresh_world)) =
     [''tasks.json'' \<mapsto> Some []] \<and>
   trace (snd (main mem_codec [''task-tracker'', ''list'', ''bogus''] fresh_world)) =
     [ReadCall ''tasks.json'', WriteCall ''tasks.json'' (Some [])] \<and>
   ticks (snd (main mem_codec [''task-tracker'', ''list'', ''bogus''] fresh_world)) = 0"
proof -
  have h: "(2::nat) \<le> length [''task-tracker'', ''list'', ''bogus'']"
    "validation_failure [''task-tracker'', ''list'', ''bogus'']"
    by (simp_all add: validation_failure_def)
  have nr: "newJsonTaskRepository mem_codec ''tasks.json'' fresh_world =
     (Inr \<lparr>filename = ''tasks.json'', tasks = []\<rparr>,
      fresh_world\<lparr>files := [''tasks.json'' \<mapsto> Some []],
                   trace := [ReadCall ''tasks.json'', WriteCall ''tasks.json'' (Some [])]\<rparr>)"
    using new_repo_absent [of fresh_world "''tasks.json''" mem_codec "Some []"]
    by (simp add: fresh_world_def mem_codec_def)
  have f: "files fresh_world = Map.empty" "trace fresh_world = []" "ticks fresh_world = 0"
    by (simp_all add: fresh_world_def)
  from rejected_command_after_construction [OF h, of mem_codec fresh_world] h nr f
  show ?thesis by simp
qed

subsection \<open>Three runs of the program\<close>

lemma Itoa_1: "Itoa 1 = ''1''"
  by (simp add: Itoa_def nat_digits.simps)

lemma Atoi_1: "Atoi ''1'' = Some 1"
  by (simp add: Atoi_def)

lemma add_on_empty_store:
  assumes "read_fault w = None" "write_fault w = None"
    and "files w ''tasks.json'' = None \<and> marshal c [] = Inr d0 \<or>
         files w ''tasks.json'' = Some d0 \<and> unmarshal c d0 = Inr []"
    and "marshal c [\<lparr>ID = 1, Description = d, Status = ''todo'',
           CreatedAt = now w (ticks w), UpdatedAt = now w (Suc (ticks w))\<rparr>] = Inr d1"
  shows "fst (main c [p, ''add'', d] w) = 0"
    and "stdout (snd (main c [p, ''add'', d] w)) =
           stdout w @ ''task added successfully (ID: 1)'' @ [CHR 0x0A]"
    and "files (snd (main c [p, ''add'', d] w)) ''tasks.json'' = Some d1"
    and "read_fault (snd (main c [p, ''add'', d] w)) = None"
    and "write_fault (snd (main c [p, ''add'', d] w)) = None"
    and "now (snd (main c [p, ''add'', d] w)) = now w"
    and "ticks (snd (main c [p, ''add'', d] w)) = Suc (Suc (ticks w))"
  using assms
  by (auto simp: main_def new_repo_absent new_repo_present add_def Add_def Let_def time_Now_def
      save_def os_WriteFile_def Println_def Itoa_1)

lemma mark_done_on_one_task:
  assumes "read_fault w = None" "write_fault w = None"
    and "files w ''tasks.json'' = Some d1" "unmarshal c d1 = Inr [t]" "ID t = 1"
    and "marshal c [t\<lparr>Status := ''done'', UpdatedAt := now w (ticks w)\<rparr>] = Inr d2"
  shows "fst (main c [p, ''mark-done'', ''1''] w) = 0"
    and "stdout (snd (main c [p, ''mark-done'', ''1''] w)) = stdout w"
    and "files (snd (main c [p, ''mark-done'', ''1''] w)) ''tasks.json'' = Some d2"
    and "read_fault (snd (main c [p, ''mark-done'', ''1''] w)) = None"
  using assms
  by (simp_all add: main_def new_repo_present markDone_def Atoi_1 MarkDone_stamp Let_def
      save_def os_WriteFile_def)

lemma list_done_on_one_task:
  assumes "read_fault w = None"
    and "files w ''tasks.json'' = Some d2" "unmarshal c d2 = Inr [t]"
    and "ID t = 1" "Description t = ''buy milk''" "Status t = ''done''"
  shows "fst (main c [p, ''list'', ''done''] w) = 0"
    and "stdout (snd (main c [p, ''list'', ''done''] w)) =
           stdout w @ ''1 buy milk done'' @ [CHR 0x0A]"
  using assms
  by (simp_all add: main_def new_repo_present list_def ListTasks_def print_tasks_def
      Println_def Itoa_1)

text \<open>
  C9. Let the codec read back what it writes, the file system work, and the store be
  empty (no file \<^verbatim>\<open>tasks.json\<close>, or one that holds the empty list). Then
  \<^verbatim>\<open>add "buy milk"\<close> exits with status 0 and prints the line
  \<^verbatim>\<open>task added successfully (ID: 1)\<close>, and the file then holds one task, with id 1,
  that description and the status \<^verbatim>\<open>todo\<close>; \<^verbatim>\<open>mark-done 1\<close>, run next, exits with
  status 0 and prints nothing on the standard output; \<^verbatim>\<open>list done\<close>, run after it,
  exits with status 0 and prints exactly the line \<^verbatim>\<open>1 buy milk done\<close>.
\<close>

theorem add_mark_done_list_end_to_end:
  assumes rt: "\<forall>ts. \<exists>d. marshal c ts = Inr d \<and> unmarshal c d = Inr ts"
    and ok: "read_fault w = None" "write_fault w = None"
    and empty: "files w ''tasks.json'' = None \<or>
                (\<exists>d. files w ''tasks.json'' = Some d \<and> unmarshal c d = Inr [])"
  shows "fst (main c [p, ''add'', ''buy milk''] w) = 0 \<and>
    stdout (snd (main c [p, ''add'', ''buy milk''] w)) =
      stdout w @ ''task added successfully (ID: 1)'' @ [CHR 0x0A] \<and>
    (\<exists>d t. files (snd (main c [p, ''add'', ''buy milk''] w)) ''tasks.json'' = Some d \<and>
       unmarshal c d = Inr [t] \<and> ID t = 1 \<and> Description t = ''buy milk'' \<and>
       Status t = ''todo'') \<and>
    fst (main c [p, ''mark-done'', ''1''] (snd (main c [p, ''add'', ''buy milk''] w))) = 0 \<and>
    stdout (snd (main c [p, ''mark-done'', ''1''] (snd (main c [p, ''add'', ''buy milk''] w)))) =
      stdout (snd (main c [p, ''add'', ''buy milk''] w)) \<and>
    fst (main c [p, ''list'', ''done'']
          (snd (main c [p, ''mark-done'', ''1''] (snd (main c [p, ''add'', ''buy milk''] w))))) = 0 \<and>
    stdout (snd (main c [p, ''list'', ''done'']
          (snd (main c [p, ''mark-done'', ''1''] (snd (main c [p, ''add'', ''buy milk''] w)))))) =
      stdout (snd (main c [p, ''mark-done'', ''1''] (snd (main c [p, ''add'', ''buy milk''] w)))) @
      ''1 buy milk done'' @ [CHR 0x0A]"
proof -
  let ?t1 = "\<lparr>ID = 1, Description = ''buy milk'', Status = ''todo'',
           CreatedAt = now w (ticks w), UpdatedAt = now w (Suc (ticks w))\<rparr>"
  let ?t2 = "?t1\<lparr>Status := ''done'', UpdatedAt := now w (Suc (Suc (ticks w)))\<rparr>"
  let ?w1 = "snd (main c [p, ''add'', ''buy milk''] w)"
  let ?w2 = "snd (main c [p, ''mark-done'', ''1''] ?w1)"
  from rt obtain d0 where d0: "marshal c [] = Inr d0" by blast
  from rt obtain d1 where d1: "marshal c [?t1] = Inr d1" "unmarshal c d1 = Inr [?t1]" by blast
  from rt obtain d2 where d2: "marshal c [?t2] = Inr d2" "unmarshal c d2 = Inr [?t2]" by blast
  from empty d0 obtain d where
    e: "files w ''tasks.json'' = None \<and> marshal c [] = Inr d \<or>
        files w ''tasks.json'' = Some d \<and> unmarshal c d = Inr []" by blast
  note s1 = add_on_empty_store [OF ok e d1(1), of p]
  have m: "marshal c [?t1\<lparr>Status := ''done'', UpdatedAt := now ?w1 (ticks ?w1)\<rparr>] = Inr d2"
    using d2(1) s1(6,7) by simp
  note s2 = mark_done_on_one_task [OF s1(4) s1(5) s1(3) d1(2) _ m, of p]
  have s3: "fst (main c [p, ''list'', ''done''] ?w2) = 0"
    "stdout (snd (main c [p, ''list'', ''done''] ?w2)) = stdout ?w2 @ ''1 buy milk done'' @ [CHR 0x0A]"
    using list_done_on_one_task [OF s2(4) s2(3) d2(2), of p] s2 by simp_all
  have f: "\<exists>d t. files ?w1 ''tasks.json'' = Some d \<and>
       unmarshal c d = Inr [t] \<and> ID t = 1 \<and> Description t = ''buy milk'' \<and> Status t = ''todo''"
    using s1(3) d1(2) by (intro exI [of _ d1] exI [of _ ?t1]) simp
  from s1(1,2) f s2(1,2) s3 show ?thesis by simp
qed

theorem add_mark_done_list_end_to_end_witness:
  "(\<forall>ts. \<exists>d. marshal mem_codec ts = Inr d \<and> unmarshal mem_codec d = Inr ts) \<and>
   read_fault fresh_world = None \<and> write_fault fresh_world = None \<and>
   files fresh_world ''tasks.json'' = None \<and>
   fst (main mem_codec [''task-tracker'', ''add'', ''buy milk''] fresh_world) = 0 \<and>
   stdout (snd (main mem_codec [''task-tracker'', ''add'', ''buy milk''] fresh_world)) =
     ''task added successfully (ID: 1)'' @ [CHR 0x0A] \<and>
   fst (main mem_codec [''task-tracker'', ''mark-done'', ''1'']
     (snd (main mem_codec [''task-tracker'', ''add'', ''buy milk''] fresh_world))) = 0 \<and>
   stdout (snd (main mem_codec [''task-tracker'', ''mark-done'', ''1'']
     (snd (main mem_codec [''task-tracker'', ''add'', ''buy milk''] fresh_world)))) =
     ''task added successfully (ID: 1)'' @ [CHR 0x0A] \<and>
   fst (main mem_codec [''task-tracker'', ''list'', ''done'']
     (snd (main mem_codec [''task-tracker'', ''mark-done'', ''1'']
       (snd (main mem_codec [''task-tracker'', ''add'', ''buy milk''] fresh_world))))) = 0 \<and>
   stdout (snd (main mem_codec [''task-tracker'', ''list'', ''done'']
     (snd (main mem_codec [''task-tracker'', ''mark-done'', ''1'']
       (snd (main mem_codec [''task-tracker'', ''add'', ''buy milk''] fresh_world)))))) =
     ''task added successfully (ID: 1)'' @ [CHR 0x0A] @ ''1 buy milk done'' @ [CHR 0x0A]"
proof -
  have rt: "\<forall>ts. \<exists>d. marshal mem_codec ts = Inr d \<and> unmarshal mem_codec d = Inr ts"
    by (simp add: mem_codec_def)
  have ok: "read_fault fresh_world = None" "write_fault fresh_world = None"
    and e: "files fresh_world ''tasks.json'' = None" and o: "stdout fresh_world = []"
    by (simp_all add: fresh_world_def)
  from e have e': "files fresh_world ''tasks.json'' = None \<or>
      (\<exists>d. files fresh_world ''tasks.json'' = Some d \<and> unmarshal mem_codec d = Inr [])" by simp
  from add_mark_done_list_end_to_end [OF rt ok e', of "''task-tracker''"] rt ok e o
  show ?thesis by simp
qed

end
